theory Spec2Isabelle
  imports Main "HOL-Library.Word"
begin

section \<open>JavaScript values\<close>

text \<open>
  A JavaScript string is a sequence of UTF-16 code units. The handlers test strings for
  emptiness and, in the client, trim them; both depend on code units only.
\<close>

type_synonym jsstring = "16 word list"

definition utf16 :: "string \<Rightarrow> jsstring" where
  "utf16 s = map of_char s"

text \<open>
  The values \<^verbatim>\<open>express.json()\<close> can put into a property of \<^verbatim>\<open>req.body\<close>. The handlers
  look at a number only through its truthiness, so numbers are represented by integers.
\<close>

datatype json =
    JNull
  | JBool bool
  | JNum int
  | JStr jsstring
  | JArr "json list"
  | JObj "(jsstring \<times> json) list"

text \<open>
  \<^verbatim>\<open>req.body\<close>, the object left by \<^verbatim>\<open>express.json()\<close>, as a map from property names to
  values: a property that is absent reads as \<^verbatim>\<open>undefined\<close>, which is \<open>None\<close> here. The
  handlers read the properties \<^verbatim>\<open>text\<close> and \<^verbatim>\<open>completed\<close> only.
\<close>

type_synonym body = "string \<rightharpoonup> json"

text \<open>The operator \<^verbatim>\<open>!v\<close> on a defined value: true exactly on the falsy values.\<close>

fun falsy :: "json \<Rightarrow> bool" where
  "falsy JNull = True"
| "falsy (JBool b) = (\<not> b)"
| "falsy (JNum n) = (n = 0)"
| "falsy (JStr s) = (s = [])"
| "falsy (JArr xs) = False"
| "falsy (JObj kvs) = False"

text \<open>
  White space and line terminators of ECMAScript, the code units that
  \<^verbatim>\<open>String.prototype.trim\<close> strips from both ends.
\<close>

definition isWhiteSpace :: "16 word \<Rightarrow> bool" where
  "isWhiteSpace c \<longleftrightarrow>
     c \<in> {0x9, 0xA, 0xB, 0xC, 0xD, 0x20, 0xA0, 0x1680, 0x2028, 0x2029, 0x202F, 0x205F,
          0x3000, 0xFEFF}
     \<or> (0x2000 \<le> c \<and> c \<le> 0x200A)"

definition trim :: "jsstring \<Rightarrow> jsstring" where
  "trim s = rev (dropWhile isWhiteSpace (rev (dropWhile isWhiteSpace s)))"

section \<open>The API service (backend/server.js)\<close>

subsection \<open>Documents and the collection\<close>

type_synonym objectid = nat
type_synonym date = int

text \<open>A document of the collection \<^verbatim>\<open>tasks\<close>, with the fields the service writes.\<close>

record doc =
  doc_id :: objectid
  doc_text :: json
  doc_completed :: bool
  doc_createdAt :: date
  doc_updatedAt :: "date option"

text \<open>
  \<^verbatim>\<open>ObjectId\<close> comes from the database driver: \<open>isValid\<close> is \<^verbatim>\<open>ObjectId.isValid\<close> on the
  path parameter and \<open>ObjectId\<close> is \<^verbatim>\<open>new ObjectId(taskId)\<close>. Both are parameters of the
  handlers that use them.
\<close>

record driver =
  isValid :: "jsstring \<Rightarrow> bool"
  ObjectId :: "jsstring \<Rightarrow> objectid"

text \<open>
  What a request takes from its environment: the clock read by \<^verbatim>\<open>new Date()\<close>, the
  identifier the driver generates for an inserted document, and which of the request's
  store calls (counted from 0) throw.
\<close>

record env =
  now :: date
  newId :: objectid
  fails :: "nat \<Rightarrow> bool"

text \<open>
  The module state: \<open>initialized\<close> holds once \<^verbatim>\<open>tasksCollection\<close> has been assigned by the
  connection callback; \<open>tasks_db\<close> is the content of the collection, in its natural order.
\<close>

record world =
  initialized :: bool
  tasks_db :: "doc list"

datatype res_body =
    Text string
  | Message string
  | Doc "doc option"
  | Docs "doc list"
  | NoBody

record response =
  status :: nat
  payload :: res_body

text \<open>\<^verbatim>\<open>findOne({_id: i})\<close>: the first document with that identifier, or \<^verbatim>\<open>null\<close>.\<close>

definition findOne :: "objectid \<Rightarrow> doc list \<Rightarrow> doc option" where
  "findOne i c = find (\<lambda>d. doc_id d = i) c"

text \<open>
  \<^verbatim>\<open>insertOne\<close>: the collection has a unique index on \<^verbatim>\<open>_id\<close>, so an identifier already
  present is a duplicate-key error (\<open>None\<close>); otherwise the document is appended.
\<close>

definition insertOne :: "doc \<Rightarrow> doc list \<Rightarrow> doc list option" where
  "insertOne d c = (if doc_id d \<in> set (map doc_id c) then None else Some (c @ [d]))"

text \<open>The object \<^verbatim>\<open>updateDoc\<close> of the update handler; an absent property is \<open>None\<close>.\<close>

record updateDoc =
  u_text :: "json option"
  u_completed :: "bool option"
  u_updatedAt :: "date option"

text \<open>The operator \<^verbatim>\<open>$set\<close>: every property of \<^verbatim>\<open>updateDoc\<close> overwrites the document's.\<close>

definition set_fields :: "updateDoc \<Rightarrow> doc \<Rightarrow> doc" where
  "set_fields u d =
     d\<lparr>doc_text := (case u_text u of None \<Rightarrow> doc_text d | Some t \<Rightarrow> t),
       doc_completed := (case u_completed u of None \<Rightarrow> doc_completed d | Some b \<Rightarrow> b),
       doc_updatedAt := (case u_updatedAt u of None \<Rightarrow> doc_updatedAt d | Some t \<Rightarrow> Some t)\<rparr>"

text \<open>
  \<^verbatim>\<open>updateOne({_id: i}, {$set: u})\<close>: the first matching document is updated; the result is
  \<^verbatim>\<open>matchedCount\<close> and the new content.
\<close>

fun updateOne :: "objectid \<Rightarrow> updateDoc \<Rightarrow> doc list \<Rightarrow> nat \<times> doc list" where
  "updateOne i u [] = (0, [])"
| "updateOne i u (d # c) =
     (if doc_id d = i then (1, set_fields u d # c)
      else (let (n, c') = updateOne i u c in (n, d # c')))"

text \<open>
  \<^verbatim>\<open>deleteOne({_id: i})\<close>: the first matching document is removed; the result is
  \<^verbatim>\<open>deletedCount\<close> and the new content.
\<close>

fun deleteOne :: "objectid \<Rightarrow> doc list \<Rightarrow> nat \<times> doc list" where
  "deleteOne i [] = (0, [])"
| "deleteOne i (d # c) =
     (if doc_id d = i then (1, c)
      else (let (n, c') = deleteOne i c in (n, d # c')))"

text \<open>The invariant of the unique index: no two documents share an identifier.\<close>

definition unique_ids :: "world \<Rightarrow> bool" where
  "unique_ids w \<longleftrightarrow> distinct (map doc_id (tasks_db w))"

subsection \<open>The four routes\<close>

text \<open>
  Each handler takes the module state and returns the response with the new state. A
  handler runs without interleaving of other requests. A store call that throws has no
  effect on the collection, and the handler's \<^verbatim>\<open>catch\<close> turns it into status 500.
\<close>

definition get_tasks :: "env \<Rightarrow> world \<Rightarrow> response \<times> world" where
  "get_tasks e w =
     (if \<not> initialized w then
        (\<lparr>status = 503, payload = Text ''Database not initialized''\<rparr>, w)
      else if fails e 0 then
        (\<lparr>status = 500, payload = Text ''Error fetching tasks''\<rparr>, w)
      else (\<lparr>status = 200, payload = Docs (tasks_db w)\<rparr>, w))"

definition post_tasks :: "env \<Rightarrow> body \<Rightarrow> world \<Rightarrow> response \<times> world" where
  "post_tasks e b w =
     (if \<not> initialized w then
        (\<lparr>status = 503, payload = Text ''Database not initialized''\<rparr>, w)
      else
        (case b ''text'' of
          None \<Rightarrow> (\<lparr>status = 400, payload = Message ''Task text cannot be empty''\<rparr>, w)
        | Some text \<Rightarrow>
            if falsy text then
              (\<lparr>status = 400, payload = Message ''Task text cannot be empty''\<rparr>, w)
            else if fails e 0 then
              (\<lparr>status = 500, payload = Text ''Error adding task''\<rparr>, w)
            else
              (case insertOne \<lparr>doc_id = newId e, doc_text = text, doc_completed = False,
                       doc_createdAt = now e, doc_updatedAt = None\<rparr> (tasks_db w) of
                None \<Rightarrow> (\<lparr>status = 500, payload = Text ''Error adding task''\<rparr>, w)
              | Some c' \<Rightarrow>
                  if fails e 1 then
                    (\<lparr>status = 500, payload = Text ''Error adding task''\<rparr>,
                     w\<lparr>tasks_db := c'\<rparr>)
                  else
                    (\<lparr>status = 201, payload = Doc (findOne (newId e) c')\<rparr>,
                     w\<lparr>tasks_db := c'\<rparr>))))"

definition put_tasks :: "driver \<Rightarrow> env \<Rightarrow> jsstring \<Rightarrow> body \<Rightarrow> world \<Rightarrow> response \<times> world" where
  "put_tasks drv e taskId b w =
     (if \<not> initialized w then
        (\<lparr>status = 503, payload = Text ''Database not initialized''\<rparr>, w)
      else if \<not> isValid drv taskId then
        (\<lparr>status = 400, payload = Message ''Invalid task ID format''\<rparr>, w)
      else
        (let upd = \<lparr>u_text = b ''text'',
                    u_completed = (case b ''completed'' of
                                     Some (JBool completed) \<Rightarrow> Some completed
                                   | _ \<Rightarrow> None),
                    u_updatedAt = None\<rparr>
         in if u_text upd = None \<and> u_completed upd = None then
              (\<lparr>status = 400, payload = Message ''No update fields provided''\<rparr>, w)
            else if fails e 0 then
              (\<lparr>status = 500, payload = Text ''Error updating task''\<rparr>, w)
            else
              (let (matchedCount, c') =
                     updateOne (ObjectId drv taskId) (upd\<lparr>u_updatedAt := Some (now e)\<rparr>)
                       (tasks_db w)
               in if matchedCount = 0 then
                    (\<lparr>status = 404, payload = Message ''Task not found''\<rparr>,
                     w\<lparr>tasks_db := c'\<rparr>)
                  else if fails e 1 then
                    (\<lparr>status = 500, payload = Text ''Error updating task''\<rparr>,
                     w\<lparr>tasks_db := c'\<rparr>)
                  else
                    (\<lparr>status = 200, payload = Doc (findOne (ObjectId drv taskId) c')\<rparr>,
                     w\<lparr>tasks_db := c'\<rparr>))))"

definition delete_tasks :: "driver \<Rightarrow> env \<Rightarrow> jsstring \<Rightarrow> world \<Rightarrow> response \<times> world" where
  "delete_tasks drv e taskId w =
     (if \<not> initialized w then
        (\<lparr>status = 503, payload = Text ''Database not initialized''\<rparr>, w)
      else if \<not> isValid drv taskId then
        (\<lparr>status = 400, payload = Message ''Invalid task ID format''\<rparr>, w)
      else if fails e 0 then
        (\<lparr>status = 500, payload = Text ''Error deleting task''\<rparr>, w)
      else
        (let (deletedCount, c') = deleteOne (ObjectId drv taskId) (tasks_db w)
         in if deletedCount = 0 then
              (\<lparr>status = 404, payload = Message ''Task not found''\<rparr>, w\<lparr>tasks_db := c'\<rparr>)
            else (\<lparr>status = 204, payload = NoBody\<rparr>, w\<lparr>tasks_db := c'\<rparr>)))"

text \<open>
  A driver and an environment for the examples: identifiers are 24 hexadecimal digits,
  read as a number.
\<close>

definition hexDigit :: "16 word \<Rightarrow> nat option" where
  "hexDigit c =
     (if 0x30 \<le> c \<and> c \<le> 0x39 then Some (unat c - 0x30)
      else if 0x41 \<le> c \<and> c \<le> 0x46 then Some (unat c - 0x37)
      else if 0x61 \<le> c \<and> c \<le> 0x66 then Some (unat c - 0x57)
      else None)"

definition hexDriver :: driver where
  "hexDriver =
     \<lparr>isValid = (\<lambda>s. length s = 24 \<and> list_all (\<lambda>c. hexDigit c \<noteq> None) s),
      ObjectId = (\<lambda>s. foldl (\<lambda>n c. 16 * n + (case hexDigit c of None \<Rightarrow> 0 | Some v \<Rightarrow> v)) 0 s)\<rparr>"

definition quiet :: "date \<Rightarrow> objectid \<Rightarrow> env" where
  "quiet t i = \<lparr>now = t, newId = i, fails = (\<lambda>k. False)\<rparr>"

text \<open>The data of the examples: an identifier in hexadecimal and a stored task.\<close>

definition milkId :: jsstring where
  "milkId = utf16 ''0000000000000000000000a1''"

definition milk :: doc where
  "milk = \<lparr>doc_id = 161, doc_text = JStr (utf16 ''buy milk''), doc_completed = False,
            doc_createdAt = 5, doc_updatedAt = None\<rparr>"

section \<open>The client (frontend/src/App.js)\<close>

subsection \<open>The component state as values\<close>

text \<open>
  A task of the local list; its \<open>id\<close> is the value of \<^verbatim>\<open>Date.now()\<close> at the time of the
  addition. The component state is the pair of \<^verbatim>\<open>useState\<close> cells.
\<close>

record task =
  task_id :: int
  task_text :: jsstring
  task_completed :: bool

record app =
  tasks :: "task list"
  newTaskText :: jsstring

definition initial :: app where
  "initial = \<lparr>tasks = [], newTaskText = []\<rparr>"

text \<open>The \<^verbatim>\<open>onChange\<close> handler of the input field.\<close>

definition setNewTaskText :: "jsstring \<Rightarrow> app \<Rightarrow> app" where
  "setNewTaskText s st = st\<lparr>newTaskText := s\<rparr>"

text \<open>\<open>dateNow\<close> is what \<^verbatim>\<open>Date.now()\<close> returns when the handler runs.\<close>

definition handleAddTask :: "int \<Rightarrow> app \<Rightarrow> app" where
  "handleAddTask dateNow st =
     (if trim (newTaskText st) = [] then st
      else st\<lparr>tasks := tasks st @
                  [\<lparr>task_id = dateNow, task_text = newTaskText st, task_completed = False\<rparr>],
              newTaskText := []\<rparr>)"

definition handleToggleComplete :: "int \<Rightarrow> app \<Rightarrow> app" where
  "handleToggleComplete taskId st =
     st\<lparr>tasks := map (\<lambda>task. if task_id task = taskId
                              then task\<lparr>task_completed := \<not> task_completed task\<rparr>
                              else task) (tasks st)\<rparr>"

definition handleDeleteTask :: "int \<Rightarrow> app \<Rightarrow> app" where
  "handleDeleteTask taskId st =
     st\<lparr>tasks := filter (\<lambda>task. task_id task \<noteq> taskId) (tasks st)\<rparr>"

text \<open>
  The user's actions: typing into the input field, clicking the add button at a given
  clock value, clicking a task's text, clicking a task's delete button.
\<close>

datatype action = Type jsstring | Add int | Toggle int | Delete int

fun step :: "action \<Rightarrow> app \<Rightarrow> app" where
  "step (Type s) st = setNewTaskText s st"
| "step (Add dateNow) st = handleAddTask dateNow st"
| "step (Toggle taskId) st = handleToggleComplete taskId st"
| "step (Delete taskId) st = handleDeleteTask taskId st"

fun run :: "action list \<Rightarrow> app \<Rightarrow> app" where
  "run [] st = st"
| "run (a # as) st = run as (step a st)"

text \<open>
  The list the specification expects after a sequence of actions, written from its
  words: one task for every addition that took effect (the pending text \<open>p\<close> was not
  blank) and whose id is not deleted afterwards, in the order of the additions, with
  \<open>completed\<close> the parity of the toggles of its id after the addition.
\<close>

fun expected :: "jsstring \<Rightarrow> action list \<Rightarrow> task list" where
  "expected p [] = []"
| "expected p (Type s # rest) = expected s rest"
| "expected p (Add n # rest) =
     (if trim p = [] then expected p rest
      else (if Delete n \<in> set rest then []
            else [\<lparr>task_id = n, task_text = p,
                   task_completed = odd (count_list rest (Toggle n))\<rparr>])
           @ expected [] rest)"
| "expected p (Toggle n # rest) = expected p rest"
| "expected p (Delete n # rest) = expected p rest"

text \<open>
  The text of the input field after a sequence of actions, and what a sequence of
  actions leaves of the tasks that were in the list before it.
\<close>

fun pending :: "jsstring \<Rightarrow> action list \<Rightarrow> jsstring" where
  "pending p [] = p"
| "pending p (Type s # rest) = pending s rest"
| "pending p (Add n # rest) = pending (if trim p = [] then p else []) rest"
| "pending p (Toggle n # rest) = pending p rest"
| "pending p (Delete n # rest) = pending p rest"

definition survivors :: "action list \<Rightarrow> task list \<Rightarrow> task list" where
  "survivors rest ts =
     map (\<lambda>t. t\<lparr>task_completed :=
                  (task_completed t \<noteq> odd (count_list rest (Toggle (task_id t))))\<rparr>)
       (filter (\<lambda>t. Delete (task_id t) \<notin> set rest) ts)"

abbreviation toggled :: "int \<Rightarrow> task \<Rightarrow> task" where
  "toggled taskId \<equiv> (\<lambda>task. if task_id task = taskId
                              then task\<lparr>task_completed := \<not> task_completed task\<rparr>
                              else task)"

subsection \<open>The toggle handler on references\<close>

text \<open>
  Arrays and objects of JavaScript are references. The heap holds the task objects and
  the arrays of references to them; \<open>next_ref\<close> is the next address to allocate.
\<close>

type_synonym ref = nat

record heap =
  objs :: "ref \<Rightarrow> task"
  arrs :: "ref \<Rightarrow> ref list"
  next_ref :: ref

definition new_obj :: "task \<Rightarrow> heap \<Rightarrow> ref \<times> heap" where
  "new_obj t h = (next_ref h, h\<lparr>objs := (objs h)(next_ref h := t), next_ref := Suc (next_ref h)\<rparr>)"

definition new_arr :: "ref list \<Rightarrow> heap \<Rightarrow> ref \<times> heap" where
  "new_arr rs h = (next_ref h, h\<lparr>arrs := (arrs h)(next_ref h := rs), next_ref := Suc (next_ref h)\<rparr>)"

text \<open>\<^verbatim>\<open>Array.prototype.map\<close>: the callback runs on the elements from left to right.\<close>

fun array_map :: "(ref \<Rightarrow> heap \<Rightarrow> ref \<times> heap) \<Rightarrow> ref list \<Rightarrow> heap \<Rightarrow> ref list \<times> heap" where
  "array_map f [] h = ([], h)"
| "array_map f (r # rs) h =
     (let (r', h') = f r h; (rs', h'') = array_map f rs h' in (r' # rs', h''))"

text \<open>
  The callback of the toggle handler: the spread \<^verbatim>\<open>{...task, completed: !task.completed}\<close>
  allocates a new object; a task with another id is returned as the same reference.
\<close>

definition toggle_callback :: "int \<Rightarrow> ref \<Rightarrow> heap \<Rightarrow> ref \<times> heap" where
  "toggle_callback taskId r h =
     (let task = objs h r
      in if task_id task = taskId
         then new_obj (task\<lparr>task_completed := \<not> task_completed task\<rparr>) h
         else (r, h))"

text \<open>
  The handler on references: \<open>tasksRef\<close> is the array held by the state cell, the result is
  the array passed to \<^verbatim>\<open>setTasks\<close>.
\<close>

definition handleToggleComplete_refs :: "int \<Rightarrow> ref \<Rightarrow> heap \<Rightarrow> ref \<times> heap" where
  "handleToggleComplete_refs taskId tasksRef h =
     (let (rs, h') = array_map (toggle_callback taskId) (arrs h tasksRef) h in new_arr rs h')"

text \<open>The list of task values an array denotes.\<close>

definition view :: "heap \<Rightarrow> ref \<Rightarrow> task list" where
  "view h a = map (objs h) (arrs h a)"

text \<open>A heap for the examples: two task objects and the array of the state cell.\<close>

definition demoHeap :: heap where
  "demoHeap =
     \<lparr>objs = (\<lambda>r. \<lparr>task_id = 0, task_text = [], task_completed = False\<rparr>)
         (0 := \<lparr>task_id = 1, task_text = utf16 ''buy milk'', task_completed = False\<rparr>,
          1 := \<lparr>task_id = 2, task_text = utf16 ''walk'', task_completed = True\<rparr>),
      arrs = (\<lambda>r. [])(2 := [0, 1]),
      next_ref = 3\<rparr>"

section \<open>Facts about the store operations\<close>

lemma findOne_first:
  "\<forall>x\<in>set xs. doc_id x \<noteq> i \<Longrightarrow> doc_id d = i \<Longrightarrow> findOne i (xs @ d # ys) = Some d"
  by (induction xs) (simp_all add: findOne_def)

lemma findOne_absent:
  "i \<notin> set (map doc_id c) \<Longrightarrow> findOne i c = None"
  by (induction c) (simp_all add: findOne_def)

lemma doc_id_set_fields [simp]: "doc_id (set_fields u d) = doc_id d"
  by (simp add: set_fields_def)

lemma updateOne_first:
  "\<forall>x\<in>set xs. doc_id x \<noteq> i \<Longrightarrow> doc_id d = i \<Longrightarrow>
     updateOne i u (xs @ d # ys) = (1, xs @ set_fields u d # ys)"
  by (induction xs) simp_all

lemma updateOne_absent:
  "i \<notin> set (map doc_id c) \<Longrightarrow> updateOne i u c = (0, c)"
  by (induction c) simp_all

lemma updateOne_ids:
  "map doc_id (snd (updateOne i u c)) = map doc_id c"
  by (induction c) (simp_all add: split_beta)

lemma deleteOne_first:
  "\<forall>x\<in>set xs. doc_id x \<noteq> i \<Longrightarrow> doc_id d = i \<Longrightarrow>
     deleteOne i (xs @ d # ys) = (1, xs @ ys)"
  by (induction xs) simp_all

lemma deleteOne_absent:
  "i \<notin> set (map doc_id c) \<Longrightarrow> deleteOne i c = (0, c)"
  by (induction c) simp_all

lemma deleteOne_distinct:
  "distinct (map doc_id c) \<Longrightarrow> distinct (map doc_id (snd (deleteOne i c)))"
proof (induction c)
  case Nil
  then show ?case by simp
next
  case (Cons d c)
  have sub: "set (map doc_id (snd (deleteOne i c))) \<subseteq> set (map doc_id c)" for c
    by (induction c) (auto simp: split_beta)
  from Cons sub [of c] show ?case
    by (auto simp: split_beta)
qed

text \<open>
  The identifiers of the collection stay pairwise distinct under every route, as the
  unique index on \<^verbatim>\<open>_id\<close> demands.
\<close>

lemma get_tasks_unique_ids: "unique_ids w \<Longrightarrow> unique_ids (snd (get_tasks e w))"
  by (simp add: get_tasks_def)

lemma post_tasks_unique_ids: "unique_ids w \<Longrightarrow> unique_ids (snd (post_tasks e b w))"
  by (auto simp: post_tasks_def insertOne_def unique_ids_def split: option.splits)

lemma put_tasks_unique_ids: "unique_ids w \<Longrightarrow> unique_ids (snd (put_tasks drv e taskId b w))"
  using updateOne_ids
  by (auto simp: put_tasks_def unique_ids_def Let_def split_beta)

lemma delete_tasks_unique_ids: "unique_ids w \<Longrightarrow> unique_ids (snd (delete_tasks drv e taskId w))"
  using deleteOne_distinct
  by (auto simp: delete_tasks_def unique_ids_def Let_def split_beta)

text \<open>
  An update that passes both checks and finds its record: the first matching document is
  overwritten by \<^verbatim>\<open>$set\<close> and returned.
\<close>

lemma put_tasks_found:
  assumes "initialized w" and "isValid drv taskId"
    and "tasks_db w = xs @ d # ys"
    and "\<forall>x\<in>set xs. doc_id x \<noteq> ObjectId drv taskId" and "doc_id d = ObjectId drv taskId"
    and "b ''text'' \<noteq> None \<or> (\<exists>c. b ''completed'' = Some (JBool c))"
    and "\<not> fails e 0" and "\<not> fails e 1"
  shows "put_tasks drv e taskId b w =
           (\<lparr>status = 200,
             payload = Doc (Some (set_fields
               \<lparr>u_text = b ''text'',
                u_completed = (case b ''completed'' of Some (JBool c) \<Rightarrow> Some c | _ \<Rightarrow> None),
                u_updatedAt = Some (now e)\<rparr> d))\<rparr>,
            w\<lparr>tasks_db := xs @ set_fields
               \<lparr>u_text = b ''text'',
                u_completed = (case b ''completed'' of Some (JBool c) \<Rightarrow> Some c | _ \<Rightarrow> None),
                u_updatedAt = Some (now e)\<rparr> d # ys\<rparr>)"
proof -
  let ?u = "\<lparr>u_text = b ''text'',
             u_completed = (case b ''completed'' of Some (JBool c) \<Rightarrow> Some c | _ \<Rightarrow> None),
             u_updatedAt = Some (now e)\<rparr>"
  have upd: "updateOne (ObjectId drv taskId) ?u (tasks_db w) = (1, xs @ set_fields ?u d # ys)"
    using assms(3-5) by (simp add: updateOne_first)
  have fnd: "findOne (ObjectId drv taskId) (xs @ set_fields ?u d # ys) = Some (set_fields ?u d)"
    using assms(4,5) by (simp add: findOne_first)
  have some: "\<not> (b ''text'' = None \<and>
      (case b ''completed'' of Some (JBool c) \<Rightarrow> Some c | _ \<Rightarrow> None) = None)"
    using assms(6) by auto
  show ?thesis
    using assms(1,2,7,8) some upd fnd
    by (simp add: put_tasks_def Let_def)
qed

lemma milkId_valid: "isValid hexDriver milkId"
  by (simp add: hexDriver_def milkId_def utf16_def hexDigit_def)

lemma milkId_ObjectId: "ObjectId hexDriver milkId = 161"
  by (simp add: hexDriver_def milkId_def utf16_def hexDigit_def)

lemma milk_invalid: "\<not> isValid hexDriver (utf16 ''milk'')"
  by (simp add: hexDriver_def utf16_def hexDigit_def)

section \<open>Creation\<close>

text \<open>
  Claim C6. A create request whose text is the empty string or omitted is answered with
  status 400 once the collection handle is initialized, and in every case leaves the
  store as it was: the rejected request persists no record.
\<close>

theorem create_empty_text_rejected:
  assumes "b ''text'' = None \<or> b ''text'' = Some (JStr [])"
  shows "snd (post_tasks e b w) = w \<and>
         (initialized w \<longrightarrow>
            fst (post_tasks e b w) =
              \<lparr>status = 400, payload = Message ''Task text cannot be empty''\<rparr>)"
  using assms by (auto simp: post_tasks_def)

theorem create_empty_text_rejected_witness:
  "post_tasks (quiet 5 1) [''text'' \<mapsto> JStr []] \<lparr>initialized = True, tasks_db = []\<rparr>
     = (\<lparr>status = 400, payload = Message ''Task text cannot be empty''\<rparr>,
        \<lparr>initialized = True, tasks_db = []\<rparr>)
   \<and> post_tasks (quiet 5 1) Map.empty \<lparr>initialized = True, tasks_db = []\<rparr>
     = (\<lparr>status = 400, payload = Message ''Task text cannot be empty''\<rparr>,
        \<lparr>initialized = True, tasks_db = []\<rparr>)"
  using create_empty_text_rejected [where b = "[''text'' \<mapsto> JStr []]" and e = "quiet 5 1"
      and w = "\<lparr>initialized = True, tasks_db = []\<rparr>"]
    create_empty_text_rejected [where b = Map.empty and e = "quiet 5 1"
      and w = "\<lparr>initialized = True, tasks_db = []\<rparr>"]
  by (simp add: prod_eq_iff)

text \<open>
  Claim C1, as the service implements it. A create request whose text is absent or falsy
  (the empty string, \<^verbatim>\<open>null\<close>, \<^verbatim>\<open>false\<close>, \<^verbatim>\<open>0\<close>) leaves the store as it was and is
  answered with status 400 once the collection handle is initialized. Every create
  request either leaves the store as it was or appends exactly one document, whose text
  is the request's text and is not the empty string. The service does not trim: a text
  of white space only is not rejected.
\<close>

theorem create_text_never_empty:
  "((b ''text'' = None \<or> (\<exists>t. b ''text'' = Some t \<and> falsy t)) \<longrightarrow>
      snd (post_tasks e b w) = w \<and>
      (initialized w \<longrightarrow>
         fst (post_tasks e b w) =
           \<lparr>status = 400, payload = Message ''Task text cannot be empty''\<rparr>))
   \<and> (snd (post_tasks e b w) = w
      \<or> (\<exists>d. snd (post_tasks e b w) = w\<lparr>tasks_db := tasks_db w @ [d]\<rparr>
             \<and> b ''text'' = Some (doc_text d) \<and> \<not> falsy (doc_text d)
             \<and> doc_text d \<noteq> JStr []))"
  by (auto simp: post_tasks_def insertOne_def split: option.splits)

theorem create_text_never_empty_witness:
  "post_tasks (quiet 5 1) [''text'' \<mapsto> JNull] \<lparr>initialized = True, tasks_db = []\<rparr>
     = (\<lparr>status = 400, payload = Message ''Task text cannot be empty''\<rparr>,
        \<lparr>initialized = True, tasks_db = []\<rparr>)"
  using create_text_never_empty [where b = "[''text'' \<mapsto> JNull]" and e = "quiet 5 1"
      and w = "\<lparr>initialized = True, tasks_db = []\<rparr>"]
  by (simp add: prod_eq_iff)

text \<open>
  The claim as the specification words it fails: a text of two spaces consists of white
  space only, and the request is answered 201 and its text persisted unchanged.
\<close>

theorem create_whitespace_text_counterexample:
  "list_all isWhiteSpace [0x20, 0x20]
   \<and> trim [0x20, 0x20] = []
   \<and> post_tasks (quiet 5 1) [''text'' \<mapsto> JStr [0x20, 0x20]]
        \<lparr>initialized = True, tasks_db = []\<rparr>
     = (\<lparr>status = 201,
         payload = Doc (Some \<lparr>doc_id = 1, doc_text = JStr [0x20, 0x20], doc_completed = False,
                             doc_createdAt = 5, doc_updatedAt = None\<rparr>)\<rparr>,
        \<lparr>initialized = True,
         tasks_db = [\<lparr>doc_id = 1, doc_text = JStr [0x20, 0x20], doc_completed = False,
                      doc_createdAt = 5, doc_updatedAt = None\<rparr>]\<rparr>)"
  by (simp add: isWhiteSpace_def trim_def post_tasks_def quiet_def insertOne_def findOne_def)

text \<open>
  Claim C2. With the collection handle initialized, no store call failing and the
  generated identifier new to the collection, a create request with a truthy text (a
  non-empty string in particular) appends exactly one document, with that text,
  \<open>completed\<close> false, \<open>createdAt\<close> the time of the request and the generated identifier;
  the answer is 201 with that document as stored, and a following list request returns
  the old content followed by it.
\<close>

theorem create_inserts_task:
  assumes "initialized w" and "b ''text'' = Some t" and "\<not> falsy t"
    and "newId e \<notin> set (map doc_id (tasks_db w))"
    and "\<not> fails e 0" and "\<not> fails e 1" and "\<not> fails e' 0"
    and "d = \<lparr>doc_id = newId e, doc_text = t, doc_completed = False,
              doc_createdAt = now e, doc_updatedAt = None\<rparr>"
  shows "post_tasks e b w =
           (\<lparr>status = 201, payload = Doc (Some d)\<rparr>, w\<lparr>tasks_db := tasks_db w @ [d]\<rparr>)
         \<and> get_tasks e' (snd (post_tasks e b w)) =
           (\<lparr>status = 200, payload = Docs (tasks_db w @ [d])\<rparr>, w\<lparr>tasks_db := tasks_db w @ [d]\<rparr>)"
proof -
  have ins: "insertOne d (tasks_db w) = Some (tasks_db w @ [d])"
    using assms(4,8) by (simp add: insertOne_def)
  have fnd: "findOne (newId e) (tasks_db w @ [d]) = Some d"
    using assms(4,8) by (intro findOne_first) force+
  have post: "post_tasks e b w =
      (\<lparr>status = 201, payload = Doc (Some d)\<rparr>, w\<lparr>tasks_db := tasks_db w @ [d]\<rparr>)"
    using assms(1-3,5,6) ins fnd unfolding assms(8) by (simp add: post_tasks_def)
  show ?thesis
    using assms(1,7) by (simp add: post get_tasks_def)
qed

theorem create_inserts_task_witness:
  "post_tasks (quiet 5 1) [''text'' \<mapsto> JStr (utf16 ''buy milk'')]
       \<lparr>initialized = True, tasks_db = []\<rparr>
     = (\<lparr>status = 201,
         payload = Doc (Some \<lparr>doc_id = 1, doc_text = JStr (utf16 ''buy milk''),
                             doc_completed = False, doc_createdAt = 5, doc_updatedAt = None\<rparr>)\<rparr>,
        \<lparr>initialized = True,
         tasks_db = [\<lparr>doc_id = 1, doc_text = JStr (utf16 ''buy milk''),
                      doc_completed = False, doc_createdAt = 5, doc_updatedAt = None\<rparr>]\<rparr>)
   \<and> fst (get_tasks (quiet 6 2)
        (snd (post_tasks (quiet 5 1) [''text'' \<mapsto> JStr (utf16 ''buy milk'')]
           \<lparr>initialized = True, tasks_db = []\<rparr>)))
     = \<lparr>status = 200,
        payload = Docs [\<lparr>doc_id = 1, doc_text = JStr (utf16 ''buy milk''),
                         doc_completed = False, doc_createdAt = 5, doc_updatedAt = None\<rparr>]\<rparr>"
  using create_inserts_task [where e = "quiet 5 1" and e' = "quiet 6 2"
      and b = "[''text'' \<mapsto> JStr (utf16 ''buy milk'')]"
      and w = "\<lparr>initialized = True, tasks_db = []\<rparr>"
      and t = "JStr (utf16 ''buy milk'')", OF _ _ _ _ _ _ _ refl]
  by (simp add: quiet_def utf16_def get_tasks_def)

section \<open>Update\<close>

text \<open>
  Claim C3. An update request that passes the checks and addresses an existing record
  (the first document \<open>d\<close> with the identifier) is answered 200 with the updated record
  \<open>d'\<close>, which replaces \<open>d\<close> in place while every other document stays as it was.
  In \<open>d'\<close> the text is the supplied one, or the previous one when no text is supplied; the
  completed flag is the supplied boolean, or the previous one otherwise; \<open>updatedAt\<close> is
  the time of the request; the identifier and \<open>createdAt\<close> are the previous ones.
\<close>

theorem update_changes_only_supplied_fields:
  assumes "initialized w" and "isValid drv taskId"
    and "tasks_db w = xs @ d # ys"
    and "\<forall>x\<in>set xs. doc_id x \<noteq> ObjectId drv taskId" and "doc_id d = ObjectId drv taskId"
    and "b ''text'' \<noteq> None \<or> (\<exists>c. b ''completed'' = Some (JBool c))"
    and "\<not> fails e 0" and "\<not> fails e 1"
  shows "\<exists>d'. put_tasks drv e taskId b w =
                (\<lparr>status = 200, payload = Doc (Some d')\<rparr>, w\<lparr>tasks_db := xs @ d' # ys\<rparr>)
           \<and> doc_id d' = doc_id d
           \<and> doc_createdAt d' = doc_createdAt d
           \<and> doc_updatedAt d' = Some (now e)
           \<and> (case b ''text'' of None \<Rightarrow> doc_text d' = doc_text d
               | Some t \<Rightarrow> doc_text d' = t)
           \<and> (case b ''completed'' of Some (JBool c) \<Rightarrow> doc_completed d' = c
               | _ \<Rightarrow> doc_completed d' = doc_completed d)"
proof -
  let ?u = "\<lparr>u_text = b ''text'',
             u_completed = (case b ''completed'' of Some (JBool c) \<Rightarrow> Some c | _ \<Rightarrow> None),
             u_updatedAt = Some (now e)\<rparr>"
  have put: "put_tasks drv e taskId b w =
      (\<lparr>status = 200, payload = Doc (Some (set_fields ?u d))\<rparr>,
       w\<lparr>tasks_db := xs @ set_fields ?u d # ys\<rparr>)"
    using assms by (rule put_tasks_found)
  have tfield: "(case b ''text'' of None \<Rightarrow> doc_text (set_fields ?u d) = doc_text d
      | Some t \<Rightarrow> doc_text (set_fields ?u d) = t)"
    by (simp add: set_fields_def split: option.splits)
  have cfield: "(case b ''completed'' of Some (JBool c) \<Rightarrow> doc_completed (set_fields ?u d) = c
      | _ \<Rightarrow> doc_completed (set_fields ?u d) = doc_completed d)"
    by (simp add: set_fields_def split: option.splits json.splits)
  have rest: "doc_id (set_fields ?u d) = doc_id d"
    "doc_createdAt (set_fields ?u d) = doc_createdAt d"
    "doc_updatedAt (set_fields ?u d) = Some (now e)"
    by (simp_all add: set_fields_def)
  from put tfield cfield rest show ?thesis by blast
qed

theorem update_changes_only_supplied_fields_witness:
  "put_tasks hexDriver (quiet 9 2) milkId [''completed'' \<mapsto> JBool True]
       \<lparr>initialized = True, tasks_db = [milk]\<rparr>
     = (\<lparr>status = 200,
         payload = Doc (Some (milk\<lparr>doc_completed := True, doc_updatedAt := Some 9\<rparr>))\<rparr>,
        \<lparr>initialized = True,
         tasks_db = [milk\<lparr>doc_completed := True, doc_updatedAt := Some 9\<rparr>]\<rparr>)
   \<and> doc_text (milk\<lparr>doc_completed := True, doc_updatedAt := Some 9\<rparr>) = JStr (utf16 ''buy milk'')"
proof -
  obtain d' where "put_tasks hexDriver (quiet 9 2) milkId [''completed'' \<mapsto> JBool True]
        \<lparr>initialized = True, tasks_db = [milk]\<rparr>
      = (\<lparr>status = 200, payload = Doc (Some d')\<rparr>, \<lparr>initialized = True, tasks_db = [d']\<rparr>)"
    and "doc_id d' = 161" and "doc_createdAt d' = 5" and "doc_updatedAt d' = Some 9"
    and "doc_text d' = JStr (utf16 ''buy milk'')" and "doc_completed d' = True"
    using update_changes_only_supplied_fields [where drv = hexDriver and e = "quiet 9 2"
        and taskId = milkId and b = "[''completed'' \<mapsto> JBool True]"
        and xs = "[]" and ys = "[]" and d = milk
        and w = "\<lparr>initialized = True, tasks_db = [milk]\<rparr>"]
      milkId_valid milkId_ObjectId
    by (auto simp: quiet_def milk_def)
  then show ?thesis by (simp add: milk_def)
qed

text \<open>
  Claim C4. With the collection handle initialized: a malformed identifier is answered
  400 with the message of the identifier check, whatever the body, the content of the
  store and the behaviour of the store calls are, and the store stays as it was, so the
  check comes before any store call; that answer differs from the not-found answer. A
  well-formed identifier that matches no record, in a request that supplies an update
  field, is answered 404. A request that supplies neither text nor completed is answered
  400, with the message of the field check when the identifier is well-formed.
\<close>

theorem update_error_cases:
  assumes "initialized w"
  shows "(\<not> isValid drv taskId \<longrightarrow>
            (\<forall>e' c. put_tasks drv e' taskId b (w\<lparr>tasks_db := c\<rparr>) =
               (\<lparr>status = 400, payload = Message ''Invalid task ID format''\<rparr>,
                w\<lparr>tasks_db := c\<rparr>)))
       \<and> \<lparr>status = 400, payload = Message ''Invalid task ID format''\<rparr>
           \<noteq> \<lparr>status = 404, payload = Message ''Task not found''\<rparr>
       \<and> (isValid drv taskId
            \<and> (b ''text'' \<noteq> None \<or> (\<exists>c. b ''completed'' = Some (JBool c)))
            \<and> ObjectId drv taskId \<notin> set (map doc_id (tasks_db w)) \<and> \<not> fails e 0 \<longrightarrow>
            put_tasks drv e taskId b w =
              (\<lparr>status = 404, payload = Message ''Task not found''\<rparr>, w))
       \<and> (b ''text'' = None \<and> b ''completed'' = None \<longrightarrow>
            status (fst (put_tasks drv e taskId b w)) = 400
            \<and> snd (put_tasks drv e taskId b w) = w
            \<and> (isValid drv taskId \<longrightarrow>
                 fst (put_tasks drv e taskId b w) =
                   \<lparr>status = 400, payload = Message ''No update fields provided''\<rparr>))"
proof -
  have malformed: "put_tasks drv e' taskId b (w\<lparr>tasks_db := c\<rparr>) =
      (\<lparr>status = 400, payload = Message ''Invalid task ID format''\<rparr>, w\<lparr>tasks_db := c\<rparr>)"
    if "\<not> isValid drv taskId" for e' c
    using assms that by (simp add: put_tasks_def)
  have absent: "put_tasks drv e taskId b w =
      (\<lparr>status = 404, payload = Message ''Task not found''\<rparr>, w)"
    if "isValid drv taskId" and "b ''text'' \<noteq> None \<or> (\<exists>c. b ''completed'' = Some (JBool c))"
      and "ObjectId drv taskId \<notin> set (map doc_id (tasks_db w))" and "\<not> fails e 0"
  proof -
    have "\<not> (b ''text'' = None \<and>
        (case b ''completed'' of Some (JBool c) \<Rightarrow> Some c | _ \<Rightarrow> None) = None)"
      using that(2) by auto
    then show ?thesis
      using assms that(1,4) updateOne_absent [OF that(3)]
      by (simp add: put_tasks_def Let_def)
  qed
  have nofield: "status (fst (put_tasks drv e taskId b w)) = 400
      \<and> snd (put_tasks drv e taskId b w) = w
      \<and> (isValid drv taskId \<longrightarrow>
           fst (put_tasks drv e taskId b w) =
             \<lparr>status = 400, payload = Message ''No update fields provided''\<rparr>)"
    if "b ''text'' = None" and "b ''completed'' = None"
    using assms that by (simp add: put_tasks_def)
  show ?thesis
    using malformed absent nofield by simp
qed

theorem update_error_cases_witness:
  "put_tasks hexDriver (quiet 9 2) (utf16 ''milk'') [''completed'' \<mapsto> JBool True]
       \<lparr>initialized = True, tasks_db = [milk]\<rparr>
     = (\<lparr>status = 400, payload = Message ''Invalid task ID format''\<rparr>,
        \<lparr>initialized = True, tasks_db = [milk]\<rparr>)
   \<and> put_tasks hexDriver (quiet 9 2) milkId [''completed'' \<mapsto> JBool True]
       \<lparr>initialized = True, tasks_db = []\<rparr>
     = (\<lparr>status = 404, payload = Message ''Task not found''\<rparr>,
        \<lparr>initialized = True, tasks_db = []\<rparr>)
   \<and> fst (put_tasks hexDriver (quiet 9 2) milkId Map.empty
       \<lparr>initialized = True, tasks_db = [milk]\<rparr>)
     = \<lparr>status = 400, payload = Message ''No update fields provided''\<rparr>"
proof -
  have "put_tasks hexDriver (quiet 9 2) (utf16 ''milk'') [''completed'' \<mapsto> JBool True]
       \<lparr>initialized = True, tasks_db = [milk]\<rparr>
     = (\<lparr>status = 400, payload = Message ''Invalid task ID format''\<rparr>,
        \<lparr>initialized = True, tasks_db = [milk]\<rparr>)"
    using update_error_cases [where drv = hexDriver and taskId = "utf16 ''milk''"
        and b = "[''completed'' \<mapsto> JBool True]"
        and w = "\<lparr>initialized = True, tasks_db = [milk]\<rparr>"] milk_invalid
    by simp
  moreover have "put_tasks hexDriver (quiet 9 2) milkId [''completed'' \<mapsto> JBool True]
       \<lparr>initialized = True, tasks_db = []\<rparr>
     = (\<lparr>status = 404, payload = Message ''Task not found''\<rparr>,
        \<lparr>initialized = True, tasks_db = []\<rparr>)"
    using update_error_cases [where drv = hexDriver and taskId = milkId and e = "quiet 9 2"
        and b = "[''completed'' \<mapsto> JBool True]"
        and w = "\<lparr>initialized = True, tasks_db = []\<rparr>"] milkId_valid
    by (auto simp: quiet_def)
  moreover have "fst (put_tasks hexDriver (quiet 9 2) milkId Map.empty
       \<lparr>initialized = True, tasks_db = [milk]\<rparr>)
     = \<lparr>status = 400, payload = Message ''No update fields provided''\<rparr>"
    using update_error_cases [where drv = hexDriver and taskId = milkId and e = "quiet 9 2"
        and b = Map.empty and w = "\<lparr>initialized = True, tasks_db = [milk]\<rparr>"] milkId_valid
    by simp
  ultimately show ?thesis by simp
qed

text \<open>
  Claim C9. A completed value that is present but not a boolean is ignored: the request
  is handled exactly as the same request without the property. So, with the handle
  initialized and a well-formed identifier, the request is answered 400 with the message
  "No update fields provided" when no text is supplied, and when a text is supplied and
  the record exists the update goes through, changing the text and \<open>updatedAt\<close> only.
\<close>

theorem update_ignores_nonboolean_completed:
  assumes "b ''completed'' = Some v" and "\<forall>c. v \<noteq> JBool c"
  shows "put_tasks drv e taskId b w = put_tasks drv e taskId (b(''completed'' := None)) w
       \<and> (initialized w \<and> isValid drv taskId \<and> b ''text'' = None \<longrightarrow>
            put_tasks drv e taskId b w =
              (\<lparr>status = 400, payload = Message ''No update fields provided''\<rparr>, w))
       \<and> (initialized w \<and> isValid drv taskId \<and> b ''text'' = Some t
            \<and> tasks_db w = xs @ d # ys
            \<and> (\<forall>x\<in>set xs. doc_id x \<noteq> ObjectId drv taskId) \<and> doc_id d = ObjectId drv taskId
            \<and> \<not> fails e 0 \<and> \<not> fails e 1 \<longrightarrow>
            put_tasks drv e taskId b w =
              (\<lparr>status = 200,
                payload = Doc (Some (d\<lparr>doc_text := t, doc_updatedAt := Some (now e)\<rparr>))\<rparr>,
               w\<lparr>tasks_db := xs @ d\<lparr>doc_text := t, doc_updatedAt := Some (now e)\<rparr> # ys\<rparr>))"
proof -
  have ignored: "(case b ''completed'' of Some (JBool c) \<Rightarrow> Some c | _ \<Rightarrow> None) = None"
    using assms by (cases v) auto
  have same: "put_tasks drv e taskId b w = put_tasks drv e taskId (b(''completed'' := None)) w"
    by (simp add: put_tasks_def ignored)
  have nofield: "put_tasks drv e taskId b w =
      (\<lparr>status = 400, payload = Message ''No update fields provided''\<rparr>, w)"
    if "initialized w" and "isValid drv taskId" and "b ''text'' = None"
    using that by (simp add: put_tasks_def ignored)
  have proceeds: "put_tasks drv e taskId b w =
      (\<lparr>status = 200,
        payload = Doc (Some (d\<lparr>doc_text := t, doc_updatedAt := Some (now e)\<rparr>))\<rparr>,
       w\<lparr>tasks_db := xs @ d\<lparr>doc_text := t, doc_updatedAt := Some (now e)\<rparr> # ys\<rparr>)"
    if "initialized w" and "isValid drv taskId" and "b ''text'' = Some t"
      and "tasks_db w = xs @ d # ys"
      and "\<forall>x\<in>set xs. doc_id x \<noteq> ObjectId drv taskId" and "doc_id d = ObjectId drv taskId"
      and "\<not> fails e 0" and "\<not> fails e 1"
    using put_tasks_found [OF that(1,2,4,5,6) _ that(7,8), of b] that(3)
    by (simp add: ignored set_fields_def)
  show ?thesis
    using same nofield proceeds by blast
qed

theorem update_ignores_nonboolean_completed_witness:
  "put_tasks hexDriver (quiet 9 2) milkId [''completed'' \<mapsto> JStr (utf16 ''yes'')]
       \<lparr>initialized = True, tasks_db = [milk]\<rparr>
     = (\<lparr>status = 400, payload = Message ''No update fields provided''\<rparr>,
        \<lparr>initialized = True, tasks_db = [milk]\<rparr>)
   \<and> put_tasks hexDriver (quiet 9 2) milkId
       [''completed'' \<mapsto> JStr (utf16 ''yes''), ''text'' \<mapsto> JStr (utf16 ''buy bread'')]
       \<lparr>initialized = True, tasks_db = [milk]\<rparr>
     = (\<lparr>status = 200,
         payload = Doc (Some (milk\<lparr>doc_text := JStr (utf16 ''buy bread''),
                                   doc_updatedAt := Some 9\<rparr>))\<rparr>,
        \<lparr>initialized = True,
         tasks_db = [milk\<lparr>doc_text := JStr (utf16 ''buy bread''), doc_updatedAt := Some 9\<rparr>]\<rparr>)"
proof -
  have "put_tasks hexDriver (quiet 9 2) milkId [''completed'' \<mapsto> JStr (utf16 ''yes'')]
       \<lparr>initialized = True, tasks_db = [milk]\<rparr>
     = (\<lparr>status = 400, payload = Message ''No update fields provided''\<rparr>,
        \<lparr>initialized = True, tasks_db = [milk]\<rparr>)"
    using update_ignores_nonboolean_completed [where drv = hexDriver and e = "quiet 9 2"
        and taskId = milkId and b = "[''completed'' \<mapsto> JStr (utf16 ''yes'')]"
        and v = "JStr (utf16 ''yes'')" and w = "\<lparr>initialized = True, tasks_db = [milk]\<rparr>",
        THEN conjunct2, THEN conjunct1]
      milkId_valid
    by simp
  moreover have "put_tasks hexDriver (quiet 9 2) milkId
       [''completed'' \<mapsto> JStr (utf16 ''yes''), ''text'' \<mapsto> JStr (utf16 ''buy bread'')]
       \<lparr>initialized = True, tasks_db = [milk]\<rparr>
     = (\<lparr>status = 200,
         payload = Doc (Some (milk\<lparr>doc_text := JStr (utf16 ''buy bread''),
                                   doc_updatedAt := Some 9\<rparr>))\<rparr>,
        \<lparr>initialized = True,
         tasks_db = [milk\<lparr>doc_text := JStr (utf16 ''buy bread''), doc_updatedAt := Some 9\<rparr>]\<rparr>)"
    using update_ignores_nonboolean_completed [where drv = hexDriver and e = "quiet 9 2"
        and taskId = milkId
        and b = "[''completed'' \<mapsto> JStr (utf16 ''yes''), ''text'' \<mapsto> JStr (utf16 ''buy bread'')]"
        and v = "JStr (utf16 ''yes'')" and w = "\<lparr>initialized = True, tasks_db = [milk]\<rparr>"
        and t = "JStr (utf16 ''buy bread'')" and xs = "[]" and ys = "[]" and d = milk,
        THEN conjunct2, THEN conjunct2]
      milkId_valid milkId_ObjectId
    by (simp add: quiet_def milk_def)
  ultimately show ?thesis by simp
qed

text \<open>
  Claim C10. An update request for an existing record whose text is the empty string is
  accepted: it is answered 200 and the record is stored with the empty string as its
  text. The update path has no check of the text beyond its presence.
\<close>

theorem update_accepts_empty_text:
  assumes "initialized w" and "isValid drv taskId"
    and "tasks_db w = xs @ d # ys"
    and "\<forall>x\<in>set xs. doc_id x \<noteq> ObjectId drv taskId" and "doc_id d = ObjectId drv taskId"
    and "b ''text'' = Some (JStr [])"
    and "\<not> fails e 0" and "\<not> fails e 1"
  shows "\<exists>d'. put_tasks drv e taskId b w =
                (\<lparr>status = 200, payload = Doc (Some d')\<rparr>, w\<lparr>tasks_db := xs @ d' # ys\<rparr>)
           \<and> doc_id d' = doc_id d \<and> doc_text d' = JStr []"
proof -
  let ?u = "\<lparr>u_text = b ''text'',
             u_completed = (case b ''completed'' of Some (JBool c) \<Rightarrow> Some c | _ \<Rightarrow> None),
             u_updatedAt = Some (now e)\<rparr>"
  have "put_tasks drv e taskId b w =
      (\<lparr>status = 200, payload = Doc (Some (set_fields ?u d))\<rparr>,
       w\<lparr>tasks_db := xs @ set_fields ?u d # ys\<rparr>)"
    using assms(1-5) _ assms(7,8) by (rule put_tasks_found) (simp add: assms(6))
  moreover have "doc_text (set_fields ?u d) = JStr []"
    by (simp add: set_fields_def assms(6))
  ultimately show ?thesis by force
qed

theorem update_accepts_empty_text_witness:
  "\<exists>d'. put_tasks hexDriver (quiet 9 2) milkId [''text'' \<mapsto> JStr []]
           \<lparr>initialized = True, tasks_db = [milk]\<rparr>
         = (\<lparr>status = 200, payload = Doc (Some d')\<rparr>, \<lparr>initialized = True, tasks_db = [d']\<rparr>)
       \<and> doc_id d' = 161 \<and> doc_text d' = JStr []"
  using update_accepts_empty_text [where drv = hexDriver and e = "quiet 9 2"
      and taskId = milkId and b = "[''text'' \<mapsto> JStr []]"
      and xs = "[]" and ys = "[]" and d = milk
      and w = "\<lparr>initialized = True, tasks_db = [milk]\<rparr>"]
    milkId_valid milkId_ObjectId
  by (simp add: quiet_def milk_def)

section \<open>Deletion\<close>

text \<open>
  Claim C5. With the handle initialized, no store call failing and the identifiers of
  the collection pairwise distinct, a delete request with a well-formed identifier that
  matches the record \<open>d\<close> removes exactly \<open>d\<close> and is answered 204 without a body; on
  the resulting store a list request returns the remaining records, none of which is
  \<open>d\<close> or has its identifier, and a second delete request for the identifier is answered
  404 and changes nothing.
\<close>

theorem delete_removes_record:
  assumes "initialized w" and "isValid drv taskId"
    and "tasks_db w = xs @ d # ys" and "doc_id d = ObjectId drv taskId"
    and "distinct (map doc_id (tasks_db w))"
    and "\<not> fails e 0" and "\<not> fails e' 0" and "\<not> fails e'' 0"
  shows "delete_tasks drv e taskId w =
           (\<lparr>status = 204, payload = NoBody\<rparr>, w\<lparr>tasks_db := xs @ ys\<rparr>)
       \<and> get_tasks e' (w\<lparr>tasks_db := xs @ ys\<rparr>) =
           (\<lparr>status = 200, payload = Docs (xs @ ys)\<rparr>, w\<lparr>tasks_db := xs @ ys\<rparr>)
       \<and> d \<notin> set (xs @ ys)
       \<and> ObjectId drv taskId \<notin> set (map doc_id (xs @ ys))
       \<and> delete_tasks drv e'' taskId (w\<lparr>tasks_db := xs @ ys\<rparr>) =
           (\<lparr>status = 404, payload = Message ''Task not found''\<rparr>, w\<lparr>tasks_db := xs @ ys\<rparr>)"
proof -
  have before: "\<forall>x\<in>set xs. doc_id x \<noteq> ObjectId drv taskId"
    using assms(3,4,5) by force
  have gone: "ObjectId drv taskId \<notin> set (map doc_id (xs @ ys))"
    using assms(3,4,5) by auto
  then have gone_d: "d \<notin> set (xs @ ys)"
    using assms(4) by force
  have first: "delete_tasks drv e taskId w =
      (\<lparr>status = 204, payload = NoBody\<rparr>, w\<lparr>tasks_db := xs @ ys\<rparr>)"
    using assms(1,2,3,6) deleteOne_first [OF before assms(4), of ys]
    by (simp add: delete_tasks_def)
  have listed: "get_tasks e' (w\<lparr>tasks_db := xs @ ys\<rparr>) =
      (\<lparr>status = 200, payload = Docs (xs @ ys)\<rparr>, w\<lparr>tasks_db := xs @ ys\<rparr>)"
    using assms(1,7) by (simp add: get_tasks_def)
  have second: "delete_tasks drv e'' taskId (w\<lparr>tasks_db := xs @ ys\<rparr>) =
      (\<lparr>status = 404, payload = Message ''Task not found''\<rparr>, w\<lparr>tasks_db := xs @ ys\<rparr>)"
    using assms(1,2,8) deleteOne_absent [OF gone]
    by (simp add: delete_tasks_def)
  show ?thesis
    using first listed second gone gone_d by simp
qed

theorem delete_removes_record_witness:
  "delete_tasks hexDriver (quiet 9 2) milkId \<lparr>initialized = True, tasks_db = [milk]\<rparr>
     = (\<lparr>status = 204, payload = NoBody\<rparr>, \<lparr>initialized = True, tasks_db = []\<rparr>)
   \<and> get_tasks (quiet 10 3) \<lparr>initialized = True, tasks_db = []\<rparr>
     = (\<lparr>status = 200, payload = Docs []\<rparr>, \<lparr>initialized = True, tasks_db = []\<rparr>)
   \<and> delete_tasks hexDriver (quiet 11 4) milkId \<lparr>initialized = True, tasks_db = []\<rparr>
     = (\<lparr>status = 404, payload = Message ''Task not found''\<rparr>,
        \<lparr>initialized = True, tasks_db = []\<rparr>)"
  using delete_removes_record [where drv = hexDriver and e = "quiet 9 2" and e' = "quiet 10 3"
      and e'' = "quiet 11 4" and taskId = milkId and xs = "[]" and ys = "[]" and d = milk
      and w = "\<lparr>initialized = True, tasks_db = [milk]\<rparr>"]
    milkId_valid milkId_ObjectId
  by (simp add: quiet_def milk_def)

section \<open>The client's list\<close>

subsection \<open>Toggling on references\<close>

lemma array_map_toggle:
  assumes "\<forall>r\<in>set rs. r < next_ref h"
    and "array_map (toggle_callback taskId) rs h = (rs', h')"
  shows "next_ref h \<le> next_ref h' \<and> arrs h' = arrs h
       \<and> (\<forall>r<next_ref h. objs h' r = objs h r)
       \<and> (\<forall>r\<in>set rs'. r < next_ref h')
       \<and> map (objs h') rs' = map (toggled taskId) (map (objs h) rs)"
  using assms
proof (induction rs arbitrary: h rs' h')
  case Nil
  then show ?case by simp
next
  case (Cons r rs)
  obtain r1 h1 where cb: "toggle_callback taskId r h = (r1, h1)"
    by (cases "toggle_callback taskId r h")
  obtain rs2 h2 where rec: "array_map (toggle_callback taskId) rs h1 = (rs2, h2)"
    by (cases "array_map (toggle_callback taskId) rs h1")
  from Cons.prems(2) cb rec have res: "rs' = r1 # rs2" "h' = h2"
    by simp_all
  have head: "next_ref h \<le> next_ref h1" "arrs h1 = arrs h"
    "\<forall>x<next_ref h. objs h1 x = objs h x" "r1 < next_ref h1"
    "objs h1 r1 = toggled taskId (objs h r)"
    using cb Cons.prems(1)
    by (auto simp: toggle_callback_def new_obj_def Let_def split: if_splits)
  have "\<forall>x\<in>set rs. x < next_ref h1"
    using Cons.prems(1) head(1) by auto
  from Cons.IH [OF this rec]
  have ih: "next_ref h1 \<le> next_ref h2" "arrs h2 = arrs h1"
    "\<forall>x<next_ref h1. objs h2 x = objs h1 x" "\<forall>x\<in>set rs2. x < next_ref h2"
    "map (objs h2) rs2 = map (toggled taskId) (map (objs h1) rs)"
    by simp_all
  have old: "map (objs h1) rs = map (objs h) rs"
    using Cons.prems(1) head(3) by simp
  show ?case
    unfolding res using head ih old by auto
qed

lemma toggle_refs:
  assumes "tasksRef < next_ref h" and "\<forall>r\<in>set (arrs h tasksRef). r < next_ref h"
    and "handleToggleComplete_refs taskId tasksRef h = (tasksRef', h')"
  shows "view h' tasksRef' = map (toggled taskId) (view h tasksRef)"
    and "tasksRef' \<noteq> tasksRef"
    and "\<forall>r<next_ref h. objs h' r = objs h r \<and> arrs h' r = arrs h r"
    and "view h' tasksRef = view h tasksRef"
    and "tasksRef' < next_ref h'" and "\<forall>r\<in>set (arrs h' tasksRef'). r < next_ref h'"
proof -
  obtain rs h1 where am: "array_map (toggle_callback taskId) (arrs h tasksRef) h = (rs, h1)"
    by (cases "array_map (toggle_callback taskId) (arrs h tasksRef) h")
  from array_map_toggle [OF assms(2) am]
  have m: "next_ref h \<le> next_ref h1" "arrs h1 = arrs h"
    "\<forall>r<next_ref h. objs h1 r = objs h r" "\<forall>r\<in>set rs. r < next_ref h1"
    "map (objs h1) rs = map (toggled taskId) (map (objs h) (arrs h tasksRef))"
    by simp_all
  from assms(3) am have res: "tasksRef' = next_ref h1"
    "h' = h1\<lparr>arrs := (arrs h1)(next_ref h1 := rs), next_ref := Suc (next_ref h1)\<rparr>"
    by (auto simp: handleToggleComplete_refs_def new_arr_def)
  show "view h' tasksRef' = map (toggled taskId) (view h tasksRef)"
    using m(5) by (simp add: res view_def)
  show "tasksRef' \<noteq> tasksRef"
    using assms(1) m(1) by (simp add: res)
  show frame: "\<forall>r<next_ref h. objs h' r = objs h r \<and> arrs h' r = arrs h r"
    using m(1,2,3) by (simp add: res)
  show "view h' tasksRef = view h tasksRef"
    using frame assms(1,2) by (simp add: view_def)
  show "tasksRef' < next_ref h'"
    by (simp add: res)
  show "\<forall>r\<in>set (arrs h' tasksRef'). r < next_ref h'"
    using m(4) by (auto simp: res)
qed

text \<open>
  Claim C7. Let the state cell hold an array of task objects in a heap, and let the
  toggle handler run for an id. The array it passes to \<^verbatim>\<open>setTasks\<close> has the length of the
  old one; at every position the task has \<open>completed\<close> flipped when its id matches and is
  the old task otherwise, which is the list the handler computes on values. The array is
  a new one: its reference differs from the old one, and the old array with its task
  objects, like every object allocated before, is unchanged. Running the handler a
  second time for the same id gives the original list again.
\<close>

theorem toggle_complete_flips_matching:
  assumes "tasksRef < next_ref h" and "\<forall>r\<in>set (arrs h tasksRef). r < next_ref h"
    and "handleToggleComplete_refs taskId tasksRef h = (tasksRef', h')"
    and "handleToggleComplete_refs taskId tasksRef' h' = (tasksRef'', h'')"
  shows "length (view h' tasksRef') = length (view h tasksRef)
       \<and> (\<forall>i<length (view h tasksRef).
             view h' tasksRef' ! i =
               (if task_id (view h tasksRef ! i) = taskId
                then (view h tasksRef ! i)
                       \<lparr>task_completed := \<not> task_completed (view h tasksRef ! i)\<rparr>
                else view h tasksRef ! i))
       \<and> view h' tasksRef' =
           tasks (handleToggleComplete taskId \<lparr>tasks = view h tasksRef, newTaskText = s\<rparr>)
       \<and> tasksRef' \<noteq> tasksRef
       \<and> view h' tasksRef = view h tasksRef
       \<and> (\<forall>r<next_ref h. objs h' r = objs h r \<and> arrs h' r = arrs h r)
       \<and> view h'' tasksRef'' = view h tasksRef
       \<and> handleToggleComplete taskId (handleToggleComplete taskId st) = st"
proof -
  note one = toggle_refs [OF assms(1,2,3)]
  note two = toggle_refs [OF one(5,6) assms(4)]
  have len: "length (view h' tasksRef') = length (view h tasksRef)"
    by (simp add: one(1))
  have pointwise: "\<forall>i<length (view h tasksRef).
      view h' tasksRef' ! i =
        (if task_id (view h tasksRef ! i) = taskId
         then (view h tasksRef ! i)\<lparr>task_completed := \<not> task_completed (view h tasksRef ! i)\<rparr>
         else view h tasksRef ! i)"
    by (simp add: one(1))
  have as_list: "view h' tasksRef' =
      tasks (handleToggleComplete taskId \<lparr>tasks = view h tasksRef, newTaskText = s\<rparr>)"
    by (simp add: one(1) handleToggleComplete_def)
  have "map (toggled taskId) (map (toggled taskId) ts) = ts" for ts
    by (induction ts) simp_all
  then have twice: "view h'' tasksRef'' = view h tasksRef"
    and on_values: "handleToggleComplete taskId (handleToggleComplete taskId st) = st"
    by (simp_all add: two(1) one(1) handleToggleComplete_def)
  show ?thesis
    using len pointwise as_list one(2,3,4) twice on_values by blast
qed

theorem toggle_complete_flips_matching_witness:
  "view (snd (handleToggleComplete_refs 1 2 demoHeap)) (fst (handleToggleComplete_refs 1 2 demoHeap))
     = [\<lparr>task_id = 1, task_text = utf16 ''buy milk'', task_completed = True\<rparr>,
        \<lparr>task_id = 2, task_text = utf16 ''walk'', task_completed = True\<rparr>]
   \<and> fst (handleToggleComplete_refs 1 2 demoHeap) \<noteq> 2
   \<and> view (snd (handleToggleComplete_refs 1 2 demoHeap)) 2
     = [\<lparr>task_id = 1, task_text = utf16 ''buy milk'', task_completed = False\<rparr>,
        \<lparr>task_id = 2, task_text = utf16 ''walk'', task_completed = True\<rparr>]"
proof -
  have wf: "2 < next_ref demoHeap" "\<forall>r\<in>set (arrs demoHeap 2). r < next_ref demoHeap"
    by (simp_all add: demoHeap_def)
  have old: "view demoHeap 2
     = [\<lparr>task_id = 1, task_text = utf16 ''buy milk'', task_completed = False\<rparr>,
        \<lparr>task_id = 2, task_text = utf16 ''walk'', task_completed = True\<rparr>]"
    by (simp add: view_def demoHeap_def)
  show ?thesis
    using toggle_complete_flips_matching [OF wf surjective_pairing surjective_pairing,
        where taskId = 1 and s = "[]"]
    by (simp add: old handleToggleComplete_def)
qed

subsection \<open>Sequences of actions\<close>

lemma survivors_empty [simp]: "survivors rest [] = []"
  by (simp add: survivors_def)

lemma survivors_Nil [simp]: "survivors [] ts = ts"
  by (induction ts) (simp_all add: survivors_def)

lemma survivors_Type [simp]: "survivors (Type s # rest) ts = survivors rest ts"
  by (simp add: survivors_def)

lemma survivors_Add [simp]: "survivors (Add n # rest) ts = survivors rest ts"
  by (simp add: survivors_def)

lemma flip_parity: "((\<not> c) = even k) = (c = odd k)"
  by auto

lemma survivors_Toggle:
  "survivors (Toggle n # rest) ts = survivors rest (map (toggled n) ts)"
  by (induction ts) (auto simp: survivors_def flip_parity)

lemma survivors_Delete:
  "survivors (Delete n # rest) ts = survivors rest (filter (\<lambda>task. task_id task \<noteq> n) ts)"
  by (induction ts) (auto simp: survivors_def)

lemma run_tasks:
  "tasks (run acts st) = survivors acts (tasks st) @ expected (newTaskText st) acts"
proof (induction acts arbitrary: st)
  case Nil
  then show ?case by simp
next
  case (Cons a acts)
  show ?case
  proof (cases a)
    case (Type s)
    then show ?thesis by (simp add: Cons.IH setNewTaskText_def)
  next
    case (Add n)
    then show ?thesis by (simp add: Cons.IH handleAddTask_def survivors_def)
  next
    case (Toggle n)
    then show ?thesis by (simp add: Cons.IH handleToggleComplete_def survivors_Toggle)
  next
    case (Delete n)
    then show ?thesis by (simp add: Cons.IH handleDeleteTask_def survivors_Delete)
  qed
qed

lemma run_text: "newTaskText (run acts st) = pending (newTaskText st) acts"
proof (induction acts arbitrary: st)
  case Nil
  then show ?case by simp
next
  case (Cons a acts)
  then show ?case
    by (cases a)
      (simp_all add: setNewTaskText_def handleAddTask_def handleToggleComplete_def
        handleDeleteTask_def)
qed

lemma split_first:
  "(\<exists>pre post. a # rest = pre @ x # post \<and> P pre post) \<longleftrightarrow>
     (a = x \<and> P [] rest) \<or> (\<exists>pre post. rest = pre @ x # post \<and> P (a # pre) post)"
  by (auto simp: Cons_eq_append_conv)

lemma split_first_set:
  "{t. \<exists>k pre post. a # rest = pre @ Add k # post \<and> Q k pre post t} =
     {t. \<exists>k. a = Add k \<and> Q k [] rest t}
     \<union> {t. \<exists>k pre post. rest = pre @ Add k # post \<and> Q k (a # pre) post t}"
  by (auto simp: Cons_eq_append_conv)

lemma expected_set:
  "set (expected p acts) =
     {t. \<exists>n pre post. acts = pre @ Add n # post \<and> trim (pending p pre) \<noteq> []
           \<and> Delete n \<notin> set post
           \<and> t = \<lparr>task_id = n, task_text = pending p pre,
                   task_completed = odd (count_list post (Toggle n))\<rparr>}"
proof (induction p acts rule: expected.induct)
  case (1 p)
  then show ?case by simp
next
  case (2 p s rest)
  then show ?case by (simp add: split_first_set)
next
  case (3 p n rest)
  then show ?case by (auto simp: split_first_set)
next
  case (4 p n rest)
  then show ?case by (simp add: split_first_set)
next
  case (5 p n rest)
  then show ?case by (simp add: split_first_set)
qed

lemma expected_ids:
  "set (map task_id (expected p acts)) =
     {n. \<exists>pre post. acts = pre @ Add n # post \<and> trim (pending p pre) \<noteq> []
           \<and> Delete n \<notin> set post}"
proof (induction p acts rule: expected.induct)
  case (1 p)
  then show ?case by simp
next
  case (2 p s rest)
  then show ?case by (simp add: split_first)
next
  case (3 p n rest)
  then show ?case by (auto simp: split_first)
next
  case (4 p n rest)
  then show ?case by (simp add: split_first)
next
  case (5 p n rest)
  then show ?case by (simp add: split_first)
qed

text \<open>
  Claim C8. After any sequence of actions from the initial state the list is the
  expected one. Its tasks are exactly those of the additions that took effect (the input
  was not blank when the button was clicked) with no later deletion of the id; each has
  the text typed at its addition and \<open>completed\<close> the parity of the toggles of its id
  after the addition. In particular the ids of the list are exactly the ids added and
  not deleted afterwards.
\<close>

theorem actions_give_expected_list:
  "tasks (run acts initial) = expected [] acts
   \<and> set (tasks (run acts initial)) =
       {t. \<exists>n pre post. acts = pre @ Add n # post
             \<and> trim (newTaskText (run pre initial)) \<noteq> []
             \<and> Delete n \<notin> set post
             \<and> t = \<lparr>task_id = n, task_text = newTaskText (run pre initial),
                     task_completed = odd (count_list post (Toggle n))\<rparr>}
   \<and> set (map task_id (tasks (run acts initial))) =
       {n. \<exists>pre post. acts = pre @ Add n # post
             \<and> trim (newTaskText (run pre initial)) \<noteq> []
             \<and> Delete n \<notin> set post}"
proof -
  have list: "tasks (run acts initial) = expected [] acts"
    by (simp add: run_tasks initial_def)
  have input: "newTaskText (run pre initial) = pending [] pre" for pre
    by (simp add: run_text initial_def)
  show ?thesis
    unfolding input list using expected_set [of "[]" acts] expected_ids [of "[]" acts]
    by simp
qed

theorem actions_give_expected_list_witness:
  "tasks (run [Type (utf16 ''buy milk''), Add 1, Toggle 1, Type (utf16 '' ''), Add 2,
               Type (utf16 ''walk''), Add 3, Add 4, Delete 3, Toggle 1, Toggle 1] initial)
     = [\<lparr>task_id = 1, task_text = utf16 ''buy milk'', task_completed = True\<rparr>]"
  using actions_give_expected_list
    [of "[Type (utf16 ''buy milk''), Add 1, Toggle 1, Type (utf16 '' ''), Add 2,
          Type (utf16 ''walk''), Add 3, Add 4, Delete 3, Toggle 1, Toggle 1]"]
  by (simp add: trim_def isWhiteSpace_def utf16_def)

end
